theory Spec2Isabelle
  imports Main "HOL-Library.Sublist"
begin

section \<open>Python strings\<close>

text \<open>
  A Python \<open>str\<close> is a sequence of Unicode code points, so a character is a natural
  number and a string a list of them. \<open>str\<close> embeds an ASCII literal.
\<close>

type_synonym pychar = nat
type_synonym pystr = "pychar list"

definition str :: "string \<Rightarrow> pystr" where
  "str s = map of_char s"

abbreviation LF :: pychar where "LF \<equiv> 0x0A"
abbreviation CR :: pychar where "CR \<equiv> 0x0D"
abbreviation dot :: pychar where "dot \<equiv> 0x2E"
abbreviation slash :: pychar where "slash \<equiv> 0x2F"
abbreviation star :: pychar where "star \<equiv> 0x2A"
abbreviation qmark :: pychar where "qmark \<equiv> 0x3F"

subsection \<open>\<open>str.splitlines\<close>\<close>

text \<open>
  The line boundaries of \<open>str.splitlines()\<close>: \<open>\n\<close>, \<open>\v\<close>, \<open>\f\<close>, \<open>\r\<close>, the
  separators \<open>\x1c\<close>, \<open>\x1d\<close>, \<open>\x1e\<close>, NEL \<open>\x85\<close>, and the Unicode line and
  paragraph separators.
\<close>

definition is_linebreak :: "pychar \<Rightarrow> bool" where
  "is_linebreak c =
     (c = 0x0A \<or> c = 0x0B \<or> c = 0x0C \<or> c = 0x0D \<or> c = 0x1C \<or> c = 0x1D \<or> c = 0x1E
      \<or> c = 0x85 \<or> c = 0x2028 \<or> c = 0x2029)"

text \<open>
  The loop of \<open>splitlines\<close> scans to the next line break, emits the text before it and
  steps over the break, reading \<open>\r\n\<close> as one break. \<open>skip_linebreak\<close> is that step,
  applied to the text from the break on.
\<close>

fun skip_linebreak :: "pystr \<Rightarrow> pystr" where
  "skip_linebreak [] = []"
| "skip_linebreak [c] = []"
| "skip_linebreak (c # d # cs) = (if c = CR \<and> d = LF then cs else d # cs)"

lemma length_skip_linebreak: "xs \<noteq> [] \<Longrightarrow> length (skip_linebreak xs) < length xs"
  by (cases xs rule: skip_linebreak.cases) auto

function splitlines :: "pystr \<Rightarrow> pystr list" where
  "splitlines [] = []"
| "splitlines (c # cs) =
     takeWhile (\<lambda>x. \<not> is_linebreak x) (c # cs)
       # splitlines (skip_linebreak (dropWhile (\<lambda>x. \<not> is_linebreak x) (c # cs)))"
  by pat_completeness auto
termination
proof (relation "measure length")
  show "wf (measure length)" by simp
next
  fix c :: pychar and cs :: pystr
  let ?r = "dropWhile (\<lambda>x. \<not> is_linebreak x) (c # cs)"
  have le: "length ?r \<le> length (c # cs)" by (rule length_dropWhile_le)
  show "(skip_linebreak ?r, c # cs) \<in> measure length"
  proof (cases "?r = []")
    case True
    then show ?thesis by simp
  next
    case False
    then have "length (skip_linebreak ?r) < length ?r" by (rule length_skip_linebreak)
    with le show ?thesis by simp
  qed
qed

section \<open>The file system the script reads\<close>

text \<open>
  The script runs in a working directory. A directory is the list of its entries in the
  order the operating system enumerates them; an entry is a regular file or a
  directory. A file carries what opening and reading it as text yields: an error, or
  the decoded text as stored (before newline translation).
\<close>

datatype error = FileNotFoundError | IsADirectoryError | PermissionError | UnicodeDecodeError

datatype node = File "error + pystr" | Dir "(pystr \<times> node) list"

type_synonym directory = "(pystr \<times> node) list"

text \<open>
  \<open>open(file_name)\<close> opens in text mode with universal newlines: \<open>read()\<close> hands
  \<open>\r\n\<close> and a lone \<open>\r\<close> over as \<open>\n\<close>.
\<close>

fun universal_newlines :: "pystr \<Rightarrow> pystr" where
  "universal_newlines [] = []"
| "universal_newlines [c] = (if c = CR then [LF] else [c])"
| "universal_newlines (c # d # cs) =
     (if c = CR then
        (if d = LF then LF # universal_newlines cs else LF # universal_newlines (d # cs))
      else c # universal_newlines (d # cs))"

definition open_read :: "directory \<Rightarrow> pystr \<Rightarrow> error + pystr" where
  "open_read cwd file_name =
     (case map_of cwd file_name of
        None \<Rightarrow> Inl FileNotFoundError
      | Some (Dir es) \<Rightarrow> Inl IsADirectoryError
      | Some (File (Inl e)) \<Rightarrow> Inl e
      | Some (File (Inr raw)) \<Rightarrow> Inr (universal_newlines raw))"

section \<open>\<open>requirements_from_file\<close>\<close>

text \<open>
  \<^verbatim>\<open>def requirements_from_file(file_name):
    return open(file_name).read().splitlines()\<close>
\<close>

definition requirements_from_file :: "directory \<Rightarrow> pystr \<Rightarrow> error + pystr list" where
  "requirements_from_file cwd file_name =
     (case open_read cwd file_name of
        Inl e \<Rightarrow> Inl e
      | Inr text \<Rightarrow> Inr (splitlines text))"

section \<open>\<open>glob.glob("bin/*.py")\<close>\<close>

text \<open>
  \<open>fnmatch\<close> matching of a name against a pattern, case-sensitively as on POSIX:
  \<open>*\<close> matches any run of characters, \<open>?\<close> any one character, every other
  character itself. Bracket expressions are left out: no pattern of this program has
  one.
\<close>

fun fnmatchcase :: "pystr \<Rightarrow> pystr \<Rightarrow> bool" where
  "fnmatchcase [] [] = True"
| "fnmatchcase (c # cs) [] = False"
| "fnmatchcase [] (p # ps) = (p = star \<and> fnmatchcase [] ps)"
| "fnmatchcase (c # cs) (p # ps) =
     (if p = star then fnmatchcase (c # cs) ps \<or> fnmatchcase cs (p # ps)
      else (p = qmark \<or> p = c) \<and> fnmatchcase cs ps)"

text \<open>\<open>_ishidden(path)\<close> is \<open>path[0] == '.'\<close>; a directory entry is never empty.\<close>

fun ishidden :: "pystr \<Rightarrow> bool" where
  "ishidden [] = False"
| "ishidden (c # cs) = (c = dot)"

text \<open>
  \<open>_listdir\<close> enumerates a directory with \<open>os.scandir\<close> and swallows every
  \<open>OSError\<close>: a missing directory, or a file in its place, lists as empty.
\<close>

definition listdir :: "directory \<Rightarrow> pystr \<Rightarrow> pystr list" where
  "listdir cwd dirname =
     (case map_of cwd dirname of Some (Dir es) \<Rightarrow> map fst es | _ \<Rightarrow> [])"

text \<open>
  \<^verbatim>\<open>def _glob1(dirname, pattern, dir_fd, dironly, include_hidden=False):
    names = _listdir(dirname, dir_fd, dironly)
    if include_hidden or not _ishidden(pattern):
        names = (x for x in names if include_hidden or not _ishidden(x))
    return fnmatch.filter(names, pattern)\<close>
\<close>

definition glob1 :: "directory \<Rightarrow> pystr \<Rightarrow> pystr \<Rightarrow> pystr list" where
  "glob1 cwd dirname pattern =
     (let names = listdir cwd dirname;
          names = (if \<not> ishidden pattern then filter (\<lambda>x. \<not> ishidden x) names else names)
      in filter (\<lambda>x. fnmatchcase x pattern) names)"

text \<open>\<open>os.path.join\<close> of two components on POSIX.\<close>

fun path_join :: "pystr \<Rightarrow> pystr \<Rightarrow> pystr" where
  "path_join a [] = (if a = [] \<or> last a = slash then a else a @ [slash])"
| "path_join a (c # cs) =
     (if c = slash then c # cs
      else if a = [] \<or> last a = slash then a @ c # cs
      else a @ slash # c # cs)"

text \<open>
  \<open>glob.glob\<close> splits the pathname \<open>bin/*.py\<close> into the literal directory \<open>bin\<close>
  and the pattern \<open>*.py\<close>, matches the pattern in that directory and joins every
  match to the directory. \<open>glob_glob cwd dirname pattern\<close> is that branch.
\<close>

definition glob_glob :: "directory \<Rightarrow> pystr \<Rightarrow> pystr \<Rightarrow> pystr list" where
  "glob_glob cwd dirname pattern = map (path_join dirname) (glob1 cwd dirname pattern)"

section \<open>\<open>find_packages(where="lib")\<close>\<close>

text \<open>\<open>sep.join(parts)\<close>.\<close>

fun join_with :: "pychar \<Rightarrow> pystr list \<Rightarrow> pystr" where
  "join_with sep [] = []"
| "join_with sep [l] = l"
| "join_with sep (l # m # ls) = l @ sep # join_with sep (m # ls)"

text \<open>
  \<open>PackageFinder._looks_like_package\<close>: \<open>__init__.py\<close> is a regular file of the
  directory.
\<close>

definition looks_like_package :: "directory \<Rightarrow> bool" where
  "looks_like_package entries =
     (case map_of entries (str ''__init__.py'') of Some (File r) \<Rightarrow> True | _ \<Rightarrow> False)"

text \<open>
  A \<open>_Filter\<close> holds patterns: calling it asks whether some pattern matches the item,
  \<open>in\<close> asks whether the item is one of the patterns.
\<close>

definition ALWAYS_EXCLUDE :: "pystr list" where
  "ALWAYS_EXCLUDE = [str ''ez_setup'', str ''*__pycache__'']"

definition Filter_call :: "pystr list \<Rightarrow> pystr \<Rightarrow> bool" where
  "Filter_call patterns item = list_ex (\<lambda>pat. fnmatchcase item pat) patterns"

definition Filter_contains :: "pystr list \<Rightarrow> pystr \<Rightarrow> bool" where
  "Filter_contains patterns item = (item \<in> set patterns)"

definition valid_package :: "pystr \<Rightarrow> directory \<Rightarrow> bool" where
  "valid_package d sub = (dot \<notin> set d \<and> looks_like_package sub)"

text \<open>
  \<open>PackageFinder._find_iter\<close> walks the tree top-down with \<open>os.walk\<close>. At every
  directory \<open>root\<close> (its path below \<open>where\<close>, as components) it goes through the
  sub-directories \<open>d\<close> in order: one with a dot in its name or without
  \<open>__init__.py\<close> is skipped, with everything below it; otherwise its dotted path is
  yielded when the filters let it through, and the walk later descends into it unless it
  is pruned. The packages of one directory are all yielded before the walk descends.
\<close>

fun find_iter :: "pystr list \<Rightarrow> pystr list \<Rightarrow> pystr list \<Rightarrow> directory \<Rightarrow> pystr list" where
  "find_iter exclude include root entries =
     concat (map (\<lambda>(d, n). case n of
                Dir sub \<Rightarrow>
                  (let package = join_with dot (root @ [d]) in
                   if valid_package d sub \<and> Filter_call include package
                        \<and> \<not> Filter_call exclude package
                   then [package] else [])
              | File r \<Rightarrow> []) entries)
     @ concat (map (\<lambda>(d, n). case n of
                Dir sub \<Rightarrow>
                  (let package = join_with dot (root @ [d]) in
                   if valid_package d sub
                        \<and> \<not> (Filter_contains exclude (package @ str ''*'')
                             \<or> Filter_contains exclude (package @ str ''.*''))
                   then find_iter exclude include (root @ [d]) sub else [])
              | File r \<Rightarrow> []) entries)"

text \<open>
  \<open>find_packages(where)\<close> with the default \<open>exclude=()\<close> and \<open>include=('*',)\<close>.
  \<open>os.walk\<close> ignores the error of a root that is missing or not a directory.
\<close>

definition find_packages :: "directory \<Rightarrow> pystr \<Rightarrow> pystr list" where
  "find_packages cwd where_dir =
     (case map_of cwd where_dir of
        Some (Dir es) \<Rightarrow> find_iter ALWAYS_EXCLUDE [str ''*''] [] es
      | _ \<Rightarrow> [])"

section \<open>The script\<close>

text \<open>
  The keyword arguments of the \<open>setup(...)\<close> call. They are evaluated in the order
  written; only \<open>requirements_from_file\<close> can raise, and then \<open>setup\<close> is not
  called: the script's outcome is the error, or the record handed to \<open>setup\<close>.
\<close>

record manifest =
  name :: pystr
  version :: pystr
  package_dir :: "(pystr \<times> pystr) list"
  packages :: "pystr list"
  scripts :: "pystr list"
  install_requires :: "pystr list"

definition setup_py :: "directory \<Rightarrow> error + manifest" where
  "setup_py cwd =
     (let pkgs = find_packages cwd (str ''lib'');
          scrs = glob_glob cwd (str ''bin'') (str ''*.py'')
      in case requirements_from_file cwd (str ''requirements.txt'') of
           Inl e \<Rightarrow> Inl e
         | Inr reqs \<Rightarrow>
             Inr \<lparr>name = str ''hadx'', version = str ''1.0.0'',
                  package_dir = [([], str ''lib'')],
                  packages = pkgs, scripts = scrs, install_requires = reqs\<rparr>)"

section \<open>Notions the properties are stated with\<close>

text \<open>
  A line of text holds no line boundary. \<open>unlines\<close> writes lines out, each ended by a
  newline; \<open>join_with LF\<close> puts a newline between them only.
\<close>

definition no_linebreak :: "pystr \<Rightarrow> bool" where
  "no_linebreak l = list_all (\<lambda>c. \<not> is_linebreak c) l"

definition unlines :: "pystr list \<Rightarrow> pystr" where
  "unlines ls = concat (map (\<lambda>l. l @ [LF]) ls)"

text \<open>\<open>push c ls\<close> puts a character in front of the first line of \<open>ls\<close>.\<close>

fun push :: "pychar \<Rightarrow> pystr list \<Rightarrow> pystr list" where
  "push c [] = [[c]]"
| "push c (l # ls) = (c # l) # ls"






subsection \<open>A project tree to run the script on\<close>

definition empty_file :: node where
  "empty_file = File (Inr [])"

definition example_lib :: directory where
  "example_lib =
     [(str ''hadx'', Dir
         [(str ''__init__.py'', empty_file),
          (str ''core'', Dir [(str ''__init__.py'', empty_file)]),
          (str ''data'', Dir [(str ''table.txt'', empty_file)])]),
      (str ''misc'', Dir
         [(str ''inner'', Dir [(str ''__init__.py'', empty_file)])])]"

definition example_bin :: directory where
  "example_bin =
     [(str ''hadx.py'', empty_file),
      (str ''.hidden.py'', empty_file),
      (str ''README'', empty_file),
      (str ''tool.py'', empty_file)]"

definition example_cwd :: directory where
  "example_cwd =
     [(str ''setup.py'', empty_file),
      (str ''requirements.txt'', File (Inr (unlines [str ''foo==1.0'', str ''bar>=2'']))),
      (str ''bin'', Dir example_bin),
      (str ''lib'', Dir example_lib)]"

subsection \<open>Requirements files with a blank line, a form feed, a continuation, a CRLF\<close>

definition nonempty_lines :: "pystr list \<Rightarrow> pystr list" where
  "nonempty_lines ls = filter (\<lambda>l. l \<noteq> []) ls"

definition blank_line_cwd :: directory where
  "blank_line_cwd =
     [(str ''requirements.txt'', File (Inr (unlines [str ''foo==1.0'', [], str ''bar>=2''])))]"




definition crlf_cwd :: directory where
  "crlf_cwd =
     [(str ''requirements.txt'',
       File (Inr (str ''foo==1.0'' @ [CR, LF, LF] @ str ''bar>=2'' @ [LF])))]"

subsection \<open>Variants of the project tree\<close>



text \<open>Projects without a requirements file, with an unreadable one, without scripts.\<close>

definition no_requirements_cwd :: directory where
  "no_requirements_cwd = [(str ''bin'', Dir [(str ''README'', empty_file)])]"

definition unreadable_cwd :: directory where
  "unreadable_cwd =
     [(str ''requirements.txt'', File (Inl PermissionError)),
      (str ''bin'', Dir example_bin),
      (str ''lib'', Dir example_lib)]"


text \<open>A pattern without wildcards.\<close>

definition literal :: "pystr \<Rightarrow> bool" where
  "literal pat = list_all (\<lambda>p. p \<noteq> star \<and> p \<noteq> qmark) pat"

text \<open>\<open>find_iter\<close> is unfolded by hand in the proofs below.\<close>

declare find_iter.simps [simp del]

section \<open>Laws of \<open>splitlines\<close> and of reading a file\<close>

lemma skip_linebreak_not_CR: "c \<noteq> CR \<Longrightarrow> skip_linebreak (c # xs) = xs"
  by (cases xs) auto

lemma splitlines_break:
  "is_linebreak c \<Longrightarrow> splitlines (c # cs) = [] # splitlines (skip_linebreak (c # cs))"
  by simp

lemma splitlines_char:
  "\<not> is_linebreak c \<Longrightarrow> splitlines (c # cs) = push c (splitlines cs)"
  by (cases cs) auto

lemma splitlines_nonempty:
  "s \<noteq> [] \<Longrightarrow> splitlines s =
     takeWhile (\<lambda>x. \<not> is_linebreak x) s
       # splitlines (skip_linebreak (dropWhile (\<lambda>x. \<not> is_linebreak x) s))"
  by (cases s) simp_all

declare splitlines.simps(2) [simp del]

lemma is_linebreak_LF: "is_linebreak LF"
  by (simp add: is_linebreak_def)

lemma is_linebreak_CR: "is_linebreak CR"
  by (simp add: is_linebreak_def)

lemma splitlines_no_break:
  "no_linebreak l \<Longrightarrow> splitlines l = (if l = [] then [] else [l])"
  by (induction l) (auto simp: no_linebreak_def splitlines_char)

lemma splitlines_line_LF:
  "no_linebreak l \<Longrightarrow> splitlines (l @ LF # rest) = l # splitlines rest"
proof (induction l)
  case Nil
  show ?case by (simp add: is_linebreak_LF skip_linebreak_not_CR splitlines_break)
next
  case (Cons c l)
  then show ?case by (simp add: no_linebreak_def splitlines_char)
qed

lemma splitlines_unlines:
  "list_all no_linebreak ls \<Longrightarrow> splitlines (unlines ls @ rest) = ls @ splitlines rest"
  by (induction ls) (simp_all add: unlines_def splitlines_line_LF)

lemma splitlines_entries:
  "l \<in> set (splitlines s) \<Longrightarrow> no_linebreak l"
proof (induction s arbitrary: l rule: splitlines.induct)
  case 1
  then show ?case by simp
next
  case (2 c cs)
  from "2.prems" show ?case
  proof (simp only: splitlines.simps list.set insert_iff, elim disjE)
    assume "l = takeWhile (\<lambda>x. \<not> is_linebreak x) (c # cs)"
    then show "no_linebreak l"
      unfolding no_linebreak_def list_all_iff by (auto dest: set_takeWhileD)
  next
    assume "l \<in> set (splitlines (skip_linebreak (dropWhile (\<lambda>x. \<not> is_linebreak x) (c # cs))))"
    then show "no_linebreak l" by (rule "2.IH")
  qed
qed

lemma splitlines_universal_newlines: "splitlines (universal_newlines s) = splitlines s"
proof (induction s rule: universal_newlines.induct)
  case 1
  then show ?case by simp
next
  case (2 c)
  show ?case by (simp add: splitlines_break is_linebreak_LF is_linebreak_CR)
next
  case (3 c d cs)
  show ?case
  proof (cases "c = CR")
    case True
    with 3 show ?thesis
      by (cases "d = LF")
         (simp_all add: splitlines_break skip_linebreak_not_CR is_linebreak_LF is_linebreak_CR)
  next
    case False
    with 3 show ?thesis
      by (cases "is_linebreak c")
         (simp_all add: splitlines_break splitlines_char skip_linebreak_not_CR)
  qed
qed

text \<open>A newline after text that does not end in a line break closes the last line.\<close>

lemma splitlines_trailing_LF:
  "s \<noteq> [] \<Longrightarrow> \<not> is_linebreak (last s) \<Longrightarrow>
     splitlines (s @ [LF]) = splitlines s \<and> last (splitlines s) \<noteq> []"
proof (induction s rule: splitlines.induct)
  case 1
  then show ?case by simp
next
  case (2 c cs)
  let ?P = "\<lambda>x. \<not> is_linebreak x"
  let ?s = "c # cs"
  let ?r = "dropWhile ?P ?s"
  show ?case
  proof (cases "?r = []")
    case True
    then have all: "\<forall>x\<in>set ?s. ?P x" by (simp only: dropWhile_eq_Nil_conv)
    then have nl: "no_linebreak ?s" by (simp add: no_linebreak_def list_all_iff)
    have "splitlines (?s @ [LF]) = [?s]"
      using splitlines_line_LF [OF nl, of "[]"] by simp
    moreover have "splitlines ?s = [?s]"
      using splitlines_no_break [OF nl] by simp
    ultimately show ?thesis by simp
  next
    case False
    then obtain b r' where r: "?r = b # r'" by (cases ?r) auto
    have b: "is_linebreak b" using hd_dropWhile [of ?P ?s] False r by auto
    from False obtain x where x: "x \<in> set ?s" "\<not> ?P x"
      by (auto simp only: dropWhile_eq_Nil_conv)
    have last_r: "last ?r = last ?s"
      using False by (metis takeWhile_dropWhile_id last_appendR)
    from "2.prems" last_r r b have r'ne: "r' \<noteq> []" by auto
    then obtain d rs where r': "r' = d # rs" by (cases r') auto
    have tk: "takeWhile ?P (?s @ [LF]) = takeWhile ?P ?s"
      using x by (rule takeWhile_append1)
    have dr: "dropWhile ?P (?s @ [LF]) = ?r @ [LF]"
      using x by (rule dropWhile_append1)
    have last_skip: "skip_linebreak ?r \<noteq> [] \<and> last (skip_linebreak ?r) = last ?s"
      using "2.prems" last_r r r' is_linebreak_LF by (auto split: if_splits)
    have skip_app: "skip_linebreak (?r @ [LF]) = skip_linebreak ?r @ [LF]"
      using r r' by simp
    from last_skip "2.prems" have
      IH: "splitlines (skip_linebreak ?r @ [LF]) = splitlines (skip_linebreak ?r)
           \<and> last (splitlines (skip_linebreak ?r)) \<noteq> []"
      by (intro "2.IH") simp_all
    have ne: "splitlines (skip_linebreak ?r) \<noteq> []"
      using last_skip by (cases "skip_linebreak ?r") (simp_all add: splitlines.simps(2))
    have L: "splitlines (?s @ [LF]) = takeWhile ?P ?s # splitlines (skip_linebreak ?r @ [LF])"
      using splitlines_nonempty [of "?s @ [LF]"] tk dr skip_app by simp
    have R: "splitlines ?s = takeWhile ?P ?s # splitlines (skip_linebreak ?r)"
      by (rule splitlines.simps(2))
    from L R IH ne show ?thesis by simp
  qed
qed

lemma requirements_of_text:
  "map_of cwd file_name = Some (File (Inr raw)) \<Longrightarrow>
     requirements_from_file cwd file_name = Inr (splitlines raw)"
  by (simp add: requirements_from_file_def open_read_def splitlines_universal_newlines)

lemma join_with_butlast:
  "ls \<noteq> [] \<Longrightarrow> join_with LF ls = unlines (butlast ls) @ last ls"
  by (induction LF ls rule: join_with.induct) (simp_all add: unlines_def)

lemma splitlines_join:
  "list_all no_linebreak ls \<Longrightarrow> ls \<noteq> [] \<Longrightarrow> last ls \<noteq> [] \<Longrightarrow>
     splitlines (join_with LF ls) = ls"
proof -
  assume a: "list_all no_linebreak ls" "ls \<noteq> []" "last ls \<noteq> []"
  then have b: "list_all no_linebreak (butlast ls)" "no_linebreak (last ls)"
    by (auto simp: list_all_iff dest: in_set_butlastD)
  from a b show ?thesis
    by (simp add: join_with_butlast splitlines_unlines splitlines_no_break)
qed

text \<open>The equations that run the model on a concrete tree.\<close>

lemmas eval_simps =
  str_def is_linebreak_def splitlines_break splitlines_char unlines_def empty_file_def
  open_read_def requirements_from_file_def listdir_def glob1_def glob_glob_def
  looks_like_package_def ALWAYS_EXCLUDE_def Filter_call_def Filter_contains_def
  valid_package_def find_packages_def find_iter.simps setup_py_def no_linebreak_def

section \<open>The dependency list\<close>

text \<open>
  C10. Whatever the requirements file holds, no entry of the list that
  \<open>requirements_from_file\<close> returns contains a line-boundary character: an entry
  never spans or embeds several lines.
\<close>

theorem requirements_entries_have_no_line_terminator:
  assumes "requirements_from_file cwd file_name = Inr reqs"
      and "l \<in> set reqs" and "c \<in> set l"
  shows "\<not> is_linebreak c"
proof -
  from assms(1) obtain body where "reqs = splitlines body"
    by (auto simp: requirements_from_file_def split: sum.splits)
  with assms(2) have "no_linebreak l" by (simp add: splitlines_entries)
  with assms(3) show ?thesis by (simp add: no_linebreak_def list_all_iff)
qed

text \<open>
  On a file with a CRLF and a blank line: the entry \<open>bar>=2\<close> and its character
  \<open>=\<close>.
\<close>

theorem requirements_entries_have_no_line_terminator_witness:
  "requirements_from_file crlf_cwd (str ''requirements.txt'')
     = Inr [str ''foo==1.0'', [], str ''bar>=2'']
   \<and> str ''bar>=2'' \<in> set [str ''foo==1.0'', [], str ''bar>=2'']
   \<and> of_char CHR ''='' \<in> set (str ''bar>=2'')
   \<and> \<not> is_linebreak (of_char CHR ''='')"
proof -
  have 1: "requirements_from_file crlf_cwd (str ''requirements.txt'')
     = Inr [str ''foo==1.0'', [], str ''bar>=2'']"
    by (simp add: crlf_cwd_def eval_simps)
  have 2: "str ''bar>=2'' \<in> set [str ''foo==1.0'', [], str ''bar>=2'']" by simp
  have 3: "of_char CHR ''='' \<in> set (str ''bar>=2'')" by (simp add: str_def)
  from requirements_entries_have_no_line_terminator [OF 1 2 3] 1 2 3 show ?thesis by simp
qed

text \<open>
  C8. For a readable file, \<open>requirements_from_file\<close> returns exactly the
  \<open>splitlines\<close> decomposition of the stored text (the newline translation of the
  read changes nothing). A blank line after complete lines gives an empty-string
  entry at its place. A single newline after text that does not end in a line break
  gives no entry of its own: the list is that of the text without it, and its last
  entry is not empty.
\<close>

theorem requirements_from_file_is_splitlines:
  assumes "map_of cwd file_name = Some (File (Inr raw))"
  shows "requirements_from_file cwd file_name = Inr (splitlines raw)
     \<and> (list_all no_linebreak before \<and> raw = unlines before @ LF # rest \<longrightarrow>
          requirements_from_file cwd file_name = Inr (before @ [] # splitlines rest))
     \<and> (s \<noteq> [] \<and> \<not> is_linebreak (last s) \<and> raw = s @ [LF] \<longrightarrow>
          requirements_from_file cwd file_name = Inr (splitlines s)
          \<and> last (splitlines s) \<noteq> [])"
proof (intro conjI impI)
  show r: "requirements_from_file cwd file_name = Inr (splitlines raw)"
    using assms by (rule requirements_of_text)
  {
    assume "list_all no_linebreak before \<and> raw = unlines before @ LF # rest"
    then show "requirements_from_file cwd file_name = Inr (before @ [] # splitlines rest)"
      using r by (simp add: splitlines_unlines splitlines_break is_linebreak_LF
                            skip_linebreak_not_CR)
  }
  {
    assume a: "s \<noteq> [] \<and> \<not> is_linebreak (last s) \<and> raw = s @ [LF]"
    then show "requirements_from_file cwd file_name = Inr (splitlines s)"
      using r splitlines_trailing_LF [of s] by simp
    from a show "last (splitlines s) \<noteq> []"
      using splitlines_trailing_LF [of s] by simp
  }
qed

text \<open>
  On the file \<open>foo==1.0\n\nbar>=2\n\<close>: the blank second line is the entry \<open>''\<close>,
  the final newline adds nothing.
\<close>

theorem requirements_from_file_is_splitlines_witness:
  "map_of blank_line_cwd (str ''requirements.txt'')
     = Some (File (Inr (unlines [str ''foo==1.0'', [], str ''bar>=2''])))
   \<and> list_all no_linebreak [str ''foo==1.0'']
   \<and> unlines [str ''foo==1.0'', [], str ''bar>=2'']
       = unlines [str ''foo==1.0''] @ LF # str ''bar>=2'' @ [LF]
   \<and> \<not> is_linebreak (last (str ''foo==1.0'' @ [LF, LF] @ str ''bar>=2''))
   \<and> unlines [str ''foo==1.0'', [], str ''bar>=2'']
       = (str ''foo==1.0'' @ [LF, LF] @ str ''bar>=2'') @ [LF]
   \<and> requirements_from_file blank_line_cwd (str ''requirements.txt'')
       = Inr ([str ''foo==1.0''] @ [] # splitlines (str ''bar>=2'' @ [LF]))
   \<and> requirements_from_file blank_line_cwd (str ''requirements.txt'')
       = Inr (splitlines (str ''foo==1.0'' @ [LF, LF] @ str ''bar>=2''))
   \<and> splitlines (str ''foo==1.0'' @ [LF, LF] @ str ''bar>=2'')
       = [str ''foo==1.0'', [], str ''bar>=2'']"
proof -
  let ?raw = "unlines [str ''foo==1.0'', [], str ''bar>=2'']"
  let ?s = "str ''foo==1.0'' @ [LF, LF] @ str ''bar>=2''"
  have h1: "map_of blank_line_cwd (str ''requirements.txt'') = Some (File (Inr ?raw))"
    by (simp add: blank_line_cwd_def)
  have h2: "list_all no_linebreak [str ''foo==1.0'']"
    by (simp add: no_linebreak_def str_def is_linebreak_def)
  have h3: "?raw = unlines [str ''foo==1.0''] @ LF # str ''bar>=2'' @ [LF]"
    by (simp add: unlines_def)
  have h4: "\<not> is_linebreak (last ?s)"
    by (simp add: str_def is_linebreak_def)
  have h5: "?raw = ?s @ [LF]"
    by (simp add: unlines_def)
  have h6: "?s \<noteq> []" by (simp add: str_def)
  note t = requirements_from_file_is_splitlines
             [OF h1, of "[str ''foo==1.0'']" "str ''bar>=2'' @ [LF]" ?s]
  from t h2 h3 have c1: "requirements_from_file blank_line_cwd (str ''requirements.txt'')
       = Inr ([str ''foo==1.0''] @ [] # splitlines (str ''bar>=2'' @ [LF]))"
    by blast
  from t h4 h5 h6 have c2: "requirements_from_file blank_line_cwd (str ''requirements.txt'')
       = Inr (splitlines ?s)"
    by blast
  have c3: "splitlines ?s = [str ''foo==1.0'', [], str ''bar>=2'']"
    by (simp add: eval_simps)
  from h1 h2 h3 h4 h5 c1 c2 c3 show ?thesis by blast
qed

text \<open>
  The file \<open>foo==1.0\n\nbar>=2\n\<close> has two non-empty lines, and
  \<open>requirements_from_file\<close> returns three entries.
\<close>

theorem blank_line_counterexample:
  "nonempty_lines [str ''foo==1.0'', [], str ''bar>=2''] = [str ''foo==1.0'', str ''bar>=2'']
   \<and> requirements_from_file blank_line_cwd (str ''requirements.txt'')
       = Inr [str ''foo==1.0'', [], str ''bar>=2'']"
  by (simp add: nonempty_lines_def blank_line_cwd_def eval_simps)

text \<open>
  C1, amended. For a requirements file written as the lines \<open>ls\<close>, each ended by a
  newline (or all but a non-empty last one), \<open>requirements_from_file\<close> returns
  exactly \<open>ls\<close>: one entry per line, in file order, verbatim, a blank line as an
  empty entry. So its non-empty entries are the N non-empty lines, and it has N
  entries plus one for every blank line.
\<close>

theorem requirements_one_entry_per_line:
  assumes "map_of cwd file_name = Some (File (Inr raw))"
      and "list_all no_linebreak ls"
      and "raw = unlines ls \<or> (ls \<noteq> [] \<and> last ls \<noteq> [] \<and> raw = join_with LF ls)"
  shows "\<exists>reqs. requirements_from_file cwd file_name = Inr reqs \<and> reqs = ls
     \<and> nonempty_lines reqs = nonempty_lines ls
     \<and> length reqs = length (nonempty_lines ls) + length (filter (\<lambda>l. l = []) ls)"
proof -
  have "splitlines raw = ls"
    using assms(2,3) splitlines_unlines [of ls "[]"] splitlines_join [of ls] by auto
  moreover have "length ls = length (nonempty_lines ls) + length (filter (\<lambda>l. l = []) ls)"
    using sum_length_filter_compl [of "\<lambda>l. l \<noteq> []" ls] by (simp add: nonempty_lines_def)
  ultimately show ?thesis using requirements_of_text [OF assms(1)] by simp
qed

text \<open>On the project tree: two lines, two entries.\<close>

theorem requirements_one_entry_per_line_witness:
  "map_of example_cwd (str ''requirements.txt'')
     = Some (File (Inr (unlines [str ''foo==1.0'', str ''bar>=2''])))
   \<and> list_all no_linebreak [str ''foo==1.0'', str ''bar>=2'']
   \<and> requirements_from_file example_cwd (str ''requirements.txt'')
       = Inr [str ''foo==1.0'', str ''bar>=2'']"
proof -
  have h1: "map_of example_cwd (str ''requirements.txt'')
     = Some (File (Inr (unlines [str ''foo==1.0'', str ''bar>=2''])))"
    by (simp add: example_cwd_def str_def)
  have h2: "list_all no_linebreak [str ''foo==1.0'', str ''bar>=2'']"
    by (simp add: no_linebreak_def str_def is_linebreak_def)
  from requirements_one_entry_per_line [OF h1 h2] h1 h2 show ?thesis by blast
qed




section \<open>A requirements file that is missing or unreadable\<close>

text \<open>
  C2. When \<open>requirements.txt\<close> is missing, is a directory or cannot be read, the
  script ends with that file-access error and \<open>setup\<close> is never called, whatever
  \<open>bin\<close> and \<open>lib\<close> hold; \<open>setup\<close> is called only when the file was read.
\<close>

theorem unreadable_requirements_abort_setup:
  "(map_of cwd (str ''requirements.txt'') = None \<longrightarrow> setup_py cwd = Inl FileNotFoundError)
   \<and> (map_of cwd (str ''requirements.txt'') = Some (File (Inl e)) \<longrightarrow> setup_py cwd = Inl e)
   \<and> (map_of cwd (str ''requirements.txt'') = Some (Dir es) \<longrightarrow>
        setup_py cwd = Inl IsADirectoryError)
   \<and> (setup_py cwd = Inr m \<longrightarrow>
        (\<exists>raw. map_of cwd (str ''requirements.txt'') = Some (File (Inr raw))))"
  by (auto simp: setup_py_def requirements_from_file_def open_read_def Let_def
           split: sum.splits option.splits node.splits)

text \<open>
  Without a requirements file, and with an unreadable one beside a full \<open>bin\<close> and
  \<open>lib\<close>.
\<close>

theorem unreadable_requirements_abort_setup_witness:
  "map_of no_requirements_cwd (str ''requirements.txt'') = None
   \<and> setup_py no_requirements_cwd = Inl FileNotFoundError
   \<and> map_of unreadable_cwd (str ''requirements.txt'') = Some (File (Inl PermissionError))
   \<and> setup_py unreadable_cwd = Inl PermissionError"
proof -
  have 1: "map_of no_requirements_cwd (str ''requirements.txt'') = None"
    by (simp add: no_requirements_cwd_def str_def)
  have 2: "map_of unreadable_cwd (str ''requirements.txt'') = Some (File (Inl PermissionError))"
    by (simp add: unreadable_cwd_def)
  from unreadable_requirements_abort_setup [of no_requirements_cwd] 1
  have 3: "setup_py no_requirements_cwd = Inl FileNotFoundError" by blast
  from unreadable_requirements_abort_setup [of unreadable_cwd PermissionError] 2
  have 4: "setup_py unreadable_cwd = Inl PermissionError" by blast
  from 1 2 3 4 show ?thesis by blast
qed

section \<open>The scripts\<close>

lemma fnmatchcase_literal: "literal pat \<Longrightarrow> fnmatchcase s pat = (s = pat)"
  by (induction s pat rule: fnmatchcase.induct) (auto simp: literal_def)

lemma fnmatchcase_star_literal:
  "literal pat \<Longrightarrow> fnmatchcase s (star # pat) = suffix pat s"
proof (induction s)
  case Nil
  then show ?case by (cases pat) (auto simp: literal_def)
next
  case (Cons c cs)
  then show ?case by (simp add: fnmatchcase_literal suffix_Cons) blast
qed


lemma fnmatchcase_py: "fnmatchcase nm (str ''*.py'') = suffix (str ''.py'') nm"
proof -
  have "str ''*.py'' = star # str ''.py''" by (simp add: str_def)
  moreover have "literal (str ''.py'')" by (simp add: literal_def str_def)
  ultimately show ?thesis by (simp add: fnmatchcase_star_literal)
qed

lemma glob_glob_scripts:
  "glob_glob cwd (str ''bin'') (str ''*.py'') =
     map (path_join (str ''bin''))
       (filter (\<lambda>nm. \<not> ishidden nm \<and> suffix (str ''.py'') nm) (listdir cwd (str ''bin'')))"
proof -
  have "\<not> ishidden (str ''*.py'')" by (simp add: str_def)
  then show ?thesis
    by (simp add: glob_glob_def glob1_def fnmatchcase_py conj_commute)
qed

lemma path_join_bin_inject:
  "path_join (str ''bin'') x = path_join (str ''bin'') y \<Longrightarrow> x = y"
  by (cases x; cases y) (auto simp: str_def split: if_splits)

lemma script_member:
  "x \<in> set (glob_glob cwd (str ''bin'') (str ''*.py'')) \<longleftrightarrow>
     (\<exists>nm\<in>set (listdir cwd (str ''bin'')).
        x = path_join (str ''bin'') nm \<and> suffix (str ''.py'') nm \<and> \<not> ishidden nm)"
  by (auto simp: glob_glob_scripts)




lemma setup_py_scripts:
  "setup_py cwd = Inr m \<Longrightarrow> scripts m = glob_glob cwd (str ''bin'') (str ''*.py'')"
  by (auto simp: setup_py_def Let_def split: sum.splits)

text \<open>
  C9. An entry of \<open>bin\<close> whose name begins with a dot is not in the scripts list,
  whatever its extension.
\<close>

theorem hidden_script_is_excluded:
  assumes "ishidden nm"
  shows "path_join (str ''bin'') nm \<notin> set (glob_glob cwd (str ''bin'') (str ''*.py''))
     \<and> (setup_py cwd = Inr m \<longrightarrow> path_join (str ''bin'') nm \<notin> set (scripts m))"
proof -
  have "path_join (str ''bin'') nm \<notin> set (glob_glob cwd (str ''bin'') (str ''*.py''))"
  proof
    assume "path_join (str ''bin'') nm \<in> set (glob_glob cwd (str ''bin'') (str ''*.py''))"
    then obtain nm' where "path_join (str ''bin'') nm = path_join (str ''bin'') nm'"
        and "\<not> ishidden nm'"
      by (auto simp: script_member)
    with assms show False by (auto dest: path_join_bin_inject)
  qed
  then show ?thesis by (auto dest: setup_py_scripts)
qed

text \<open>On the project tree, which holds \<open>bin/.hidden.py\<close>.\<close>

theorem hidden_script_is_excluded_witness:
  "ishidden (str ''.hidden.py'')
   \<and> str ''.hidden.py'' \<in> set (listdir example_cwd (str ''bin''))
   \<and> suffix (str ''.py'') (str ''.hidden.py'')
   \<and> path_join (str ''bin'') (str ''.hidden.py'') = str ''bin/.hidden.py''
   \<and> str ''bin/.hidden.py'' \<notin> set (glob_glob example_cwd (str ''bin'') (str ''*.py''))"
proof -
  have h: "ishidden (str ''.hidden.py'')" by (simp add: str_def)
  have 1: "str ''.hidden.py'' \<in> set (listdir example_cwd (str ''bin''))"
    by (simp add: example_cwd_def example_bin_def listdir_def str_def)
  have 2: "suffix (str ''.py'') (str ''.hidden.py'')"
    by (simp add: str_def suffix_Cons)
  have 3: "path_join (str ''bin'') (str ''.hidden.py'') = str ''bin/.hidden.py''"
    by (simp add: str_def)
  from hidden_script_is_excluded [OF h, of example_cwd] 3
  have "str ''bin/.hidden.py'' \<notin> set (glob_glob example_cwd (str ''bin'') (str ''*.py''))"
    by simp
  with h 1 2 3 show ?thesis by blast
qed







section \<open>The packages\<close>


















section \<open>The manifest as a function of its inputs\<close>



end
